theory Spec2Isabelle
  imports Main
begin

section \<open>Python values, strings and dictionaries\<close>

text \<open>
  The scraper of \<^verbatim>\<open>selenium_webscrap.py\<close> is a script: its logic is the block under
  \<^verbatim>\<open>if __name__ == "__main__"\<close>, three loops over what the browser driver returns.
  The driver is an external collaborator, so the model takes as input exactly what the
  script reads from it (elements found, attribute values, inner texts, pixel widths) and
  computes what the script stores in its dictionaries.

  Strings are lists of 8-bit characters, read as the code points 0 to 255. The string
  methods the script calls (\<^verbatim>\<open>lower\<close>, \<^verbatim>\<open>isnumeric\<close>, \<^verbatim>\<open>int\<close>) are modelled
  as Python defines them on these code points; text with code points above 255 is
  outside the model. The optional limit of the interpreter on the number of digits
  \<^verbatim>\<open>int\<close> accepts is not modelled.
\<close>

datatype pyval = VStr string | VInt int | VBool bool

datatype error =
    NoSuchElementException
  | ValueError
  | NameError
  | AttributeError
  | IndexError
  | TypeError

text \<open>
  A Python \<^verbatim>\<open>dict\<close> keeps insertion order: assigning to a key that is present replaces
  the value in place, assigning to a new key appends the entry.
\<close>

type_synonym 'v dict = "(string \<times> 'v) list"

fun dict_set :: "'v dict \<Rightarrow> string \<Rightarrow> 'v \<Rightarrow> 'v dict" where
  "dict_set [] k v = [(k, v)]"
| "dict_set ((k', v') # d) k v =
     (if k' = k then (k', v) # d else (k', v') # dict_set d k v)"


definition keys :: "'v dict \<Rightarrow> string list" where
  "keys d = map fst d"

subsection \<open>String methods\<close>

text \<open>\<^verbatim>\<open>s.index(sub)\<close>: the lowest index where \<^verbatim>\<open>sub\<close> starts, \<^verbatim>\<open>ValueError\<close>
  (here \<open>None\<close>) when there is none.\<close>

fun str_index :: "string \<Rightarrow> string \<Rightarrow> nat option" where
  "str_index [] sub = (if sub = [] then Some 0 else None)"
| "str_index (c # s) sub =
     (if take (length sub) (c # s) = sub then Some 0
      else map_option Suc (str_index s sub))"

text \<open>\<^verbatim>\<open>sub in s\<close>.\<close>

definition str_contains :: "string \<Rightarrow> string \<Rightarrow> bool" where
  "str_contains sub s = (str_index s sub \<noteq> None)"

text \<open>\<^verbatim>\<open>s.lower()\<close>: the letters A to Z move to a to z, and the capital letters of
  the code points 192 to 222 (all but the multiplication sign, 215) move 32 places up.\<close>

definition lower_char :: "char \<Rightarrow> char" where
  "lower_char c =
     (case map_of (zip ''ABCDEFGHIJKLMNOPQRSTUVWXYZ'' ''abcdefghijklmnopqrstuvwxyz'') c of
        Some l \<Rightarrow> l
      | None \<Rightarrow>
          if 192 \<le> (of_char c :: nat) \<and> (of_char c :: nat) \<le> 222 \<and> (of_char c :: nat) \<noteq> 215
          then char_of ((of_char c :: nat) + 32) else c)"

definition lower :: "string \<Rightarrow> string" where
  "lower s = map lower_char s"

text \<open>\<^verbatim>\<open>s.split(sep)\<close> for a separator of one character: the pieces between the
  separators, always at least one piece.\<close>

fun split :: "char \<Rightarrow> string \<Rightarrow> string list" where
  "split sep [] = [[]]"
| "split sep (c # s) =
     (if c = sep then [] # split sep s
      else (case split sep s of
              [] \<Rightarrow> [[c]]
            | p # ps \<Rightarrow> (c # p) # ps))"

text \<open>\<^verbatim>\<open>s.replace(old, new)\<close> for \<^verbatim>\<open>old\<close> of one character.\<close>

definition replace :: "char \<Rightarrow> string \<Rightarrow> string \<Rightarrow> string" where
  "replace old new s = concat (map (\<lambda>c. if c = old then new else [c]) s)"

definition is_digit :: "char \<Rightarrow> bool" where
  "is_digit c = (48 \<le> (of_char c :: nat) \<and> (of_char c :: nat) \<le> 57)"

definition digit_val :: "char \<Rightarrow> int" where
  "digit_val c = int ((of_char c :: nat) - 48)"

text \<open>
  \<^verbatim>\<open>s.isnumeric()\<close>: at least one character and all of them numeric. Below 256 the
  numeric characters are the decimal digits, the superscripts two, three and one (178,
  179, 185) and the fractions one quarter, one half and three quarters (188 to 190).
\<close>

definition is_numeric :: "char \<Rightarrow> bool" where
  "is_numeric c = (is_digit c \<or> (of_char c :: nat) \<in> {178, 179, 185, 188, 189, 190})"

definition isnumeric :: "string \<Rightarrow> bool" where
  "isnumeric s = (s \<noteq> [] \<and> list_all is_numeric s)"

text \<open>
  \<^verbatim>\<open>int(s)\<close>: white space around the literal is dropped (tab to carriage return,
  space, and of the code points above 127 the next-line control 133 and the no-break
  space 160), one sign may lead, the digits are decimal digits and may be grouped by
  single underscores; anything else is a \<^verbatim>\<open>ValueError\<close>.
\<close>

definition is_space :: "char \<Rightarrow> bool" where
  "is_space c = ((of_char c :: nat) \<in> {9, 10, 11, 12, 13, 32, 133, 160})"

definition strip :: "string \<Rightarrow> string" where
  "strip s = rev (dropWhile is_space (rev (dropWhile is_space s)))"

fun valid_digits :: "string \<Rightarrow> bool" where
  "valid_digits [] = False"
| "valid_digits [c] = is_digit c"
| "valid_digits (c # d # s) =
     (is_digit c \<and> (if d = CHR ''_'' then valid_digits s else valid_digits (d # s)))"

definition decimal :: "string \<Rightarrow> int" where
  "decimal s = foldl (\<lambda>a c. 10 * a + digit_val c) 0 s"

definition py_int :: "string \<Rightarrow> error + int" where
  "py_int s =
     (let t = strip s;
          neg = (t \<noteq> [] \<and> hd t = CHR ''-'');
          body = (if t \<noteq> [] \<and> (hd t = CHR ''-'' \<or> hd t = CHR ''+'') then tl t else t)
      in if valid_digits body
         then Inr ((if neg then - 1 else 1) * decimal (filter is_digit body))
         else Inl ValueError)"

section \<open>The link harvest (lines 155 to 167)\<close>

text \<open>
  The listing table as the four nested \<^verbatim>\<open>find_elements\<close> calls return it: rows, the
  cells of a row, the lists of a cell, the items of a list. Under each item the script
  looks for one anchor with \<^verbatim>\<open>find_element\<close>; the item is modelled by what that call
  gives: \<open>None\<close> when it raises, else the anchor's \<^verbatim>\<open>innerText\<close> and \<^verbatim>\<open>href\<close>.
\<close>

type_synonym li = "(string \<times> string) option"
type_synonym ul = "li list"
type_synonym td = "ul list"
type_synonym tr = "td list"

text \<open>The state of the harvest: the dictionary \<^verbatim>\<open>links\<close> and the lines printed.\<close>

type_synonym harvest_state = "string dict \<times> string list"

fun harvest_item :: "harvest_state \<Rightarrow> li \<Rightarrow> harvest_state" where
  "harvest_item (links, out) None =
     (links, out @ [''ERROR: Link element within list-item not found!''])"
| "harvest_item (links, out) (Some (innerText, href)) =
     (dict_set links innerText href, out)"

definition harvest :: "tr list \<Rightarrow> harvest_state" where
  "harvest vehicle_table =
     foldl (\<lambda>st row.
       foldl (\<lambda>st cell.
         foldl (\<lambda>st list. foldl harvest_item st list) st cell) st row)
       ([], []) vehicle_table"

text \<open>The list items of the table in document order.\<close>

definition items_of :: "tr list \<Rightarrow> li list" where
  "items_of vehicle_table = concat (concat (concat vehicle_table))"

text \<open>The anchors found, in document order.\<close>

definition anchors_of :: "tr list \<Rightarrow> (string \<times> string) list" where
  "anchors_of vehicle_table =
     concat (map (\<lambda>item. case item of None \<Rightarrow> [] | Some a \<Rightarrow> [a]) (items_of vehicle_table))"

section \<open>The detail page of an item\<close>

text \<open>
  What the script reads from the page the driver shows after \<^verbatim>\<open>driver.get(url)\<close>.
  The DOM properties \<^verbatim>\<open>innerText\<close> and \<^verbatim>\<open>href\<close> are strings; the content attributes
  \<^verbatim>\<open>data-source\<close> and \<^verbatim>\<open>data-image-name\<close> are \<open>None\<close> when the element does not
  carry them, as \<^verbatim>\<open>get_attribute\<close> returns. Pixel widths are integers.
\<close>

text \<open>A \<^verbatim>\<open>div\<close> under the hero container.\<close>

record div_el =
  div_data_source :: "string option"
  div_innerText :: string

text \<open>
  The hero container (class \<^verbatim>\<open>nohero\<close>): the \<^verbatim>\<open>href\<close> of the anchor at
  \<^verbatim>\<open>XPATH_IMAGE\<close> (\<open>None\<close> when \<^verbatim>\<open>find_element\<close> finds no such anchor), its
  \<^verbatim>\<open>div\<close> descendants in document order, and the \<^verbatim>\<open>innerText\<close> of the elements
  at \<^verbatim>\<open>XPATH_PRICE\<close>.
\<close>

record hero =
  image_href :: "string option"
  divs :: "div_el list"
  price_texts :: "string list"

text \<open>
  An element of a stats or info container: its class names, its \<^verbatim>\<open>innerText\<close>, the
  widths of the elements at \<^verbatim>\<open>div[1]/div[1]\<close> under it (the filled portion of a bar),
  and the \<^verbatim>\<open>data-image-name\<close> of the element at \<^verbatim>\<open>img[1]\<close> under it (\<open>None\<close>
  when there is no image, \<open>Some None\<close> when the image has no such attribute).
\<close>

record element =
  class_names :: "string list"
  innerText :: string
  fill_widths :: "int list"
  img_data_image_name :: "string option option"

text \<open>
  A page: the hero container (\<open>None\<close> when \<^verbatim>\<open>find_element\<close> finds none), and the
  containers of class \<^verbatim>\<open>CLASS_STATS\<close> and \<^verbatim>\<open>CLASS_INFOS\<close> that
  \<^verbatim>\<open>find_elements\<close> returns, each as the list of its descendants.
\<close>

record page =
  nohero :: "hero option"
  stats_containers :: "element list list"
  infos_containers :: "element list list"

text \<open>\<^verbatim>\<open>container.find_element(By.CLASS_NAME, name)\<close>: the first descendant of that
  class, or \<^verbatim>\<open>NoSuchElementException\<close>.\<close>

fun find_element :: "element list \<Rightarrow> string \<Rightarrow> error + element" where
  "find_element [] name = Inl NoSuchElementException"
| "find_element (el # els) name =
     (if name \<in> set (class_names el) then Inr el else find_element els name)"

section \<open>The field extractors (lines 181 to 240)\<close>

definition LIMIT :: nat where
  "LIMIT = 150"

text \<open>Lines 187 to 190: the image. \<^verbatim>\<open>url[: url.lower().index(".png") + 4]\<close>.\<close>

definition set_image :: "hero \<Rightarrow> pyval dict \<Rightarrow> error + pyval dict" where
  "set_image container record =
     (case image_href container of
        None \<Rightarrow> Inl NoSuchElementException
      | Some url \<Rightarrow>
          (case str_index (lower url) ''.png'' of
             None \<Rightarrow> Inl ValueError
           | Some i \<Rightarrow> Inr (dict_set record ''image'' (VStr (take (i + 4) url)))))"

text \<open>
  Lines 192 to 196: the class. The loop binds \<^verbatim>\<open>value\<close> at the first \<^verbatim>\<open>div\<close> whose
  \<^verbatim>\<open>data-source\<close> is \<^verbatim>\<open>"class"\<close> and leaves it as it was when there is none.
  \<^verbatim>\<open>value\<close> is a variable of the module, so it is part of the state that goes from
  one item to the next: \<open>None\<close> while nothing has bound it.
\<close>

fun class_loop :: "div_el list \<Rightarrow> pyval option \<Rightarrow> pyval option" where
  "class_loop [] value = value"
| "class_loop (el # els) value =
     (if div_data_source el = Some ''class'' then Some (VStr (div_innerText el))
      else class_loop els value)"

definition set_class ::
  "hero \<Rightarrow> pyval option \<Rightarrow> pyval dict \<Rightarrow> error + (pyval dict \<times> pyval option)" where
  "set_class container value record =
     (case class_loop (divs container) value of
        None \<Rightarrow> Inl NameError
      | Some (VStr s) \<Rightarrow>
          (case split (CHR 0x0A) s of
             [] \<Rightarrow> Inl IndexError
           | [first] \<Rightarrow> Inl IndexError
           | first # second # rest \<Rightarrow>
               (case split (CHR ''('') second of
                  [] \<Rightarrow> Inl IndexError
                | seg # segs \<Rightarrow>
                    Inr (dict_set record ''CLASS'' (VStr seg), Some (VStr s))))
      | Some (VInt n) \<Rightarrow> Inl AttributeError
      | Some (VBool b) \<Rightarrow> Inl AttributeError)"

text \<open>Lines 198 to 205: the price.\<close>

definition set_price :: "hero \<Rightarrow> pyval dict \<Rightarrow> error + pyval dict" where
  "set_price container record =
     (case price_texts container of
        [] \<Rightarrow> Inr record
      | price # others \<Rightarrow>
          if str_contains ''$'' price then
            (let price = replace (CHR ''('') '' ''
                           (replace (CHR 0x0A) '' '' (replace (CHR '','') [] price))
             in case str_index price ''$'' of
                  None \<Rightarrow> Inl ValueError
                | Some idx \<Rightarrow>
                    (case split (CHR '' '') (drop idx price) of
                       [] \<Rightarrow> Inl IndexError
                     | token # tokens \<Rightarrow>
                         (case py_int (replace (CHR ''$'') [] token) of
                            Inl e \<Rightarrow> Inl e
                          | Inr n \<Rightarrow> Inr (dict_set record ''PRICE'' (VInt n)))))
          else Inr record)"

text \<open>
  Lines 207 to 220: the stat bars. \<^verbatim>\<open>CLASS_STATS.replace("container", f"name{idx + 1}")\<close>
  is \<^verbatim>\<open>rssc-stats-name\<close> followed by the digit of \<^verbatim>\<open>idx + 1\<close>, for the
  indices below nine that the loops use.
\<close>

definition stats_class :: "string \<Rightarrow> nat \<Rightarrow> string" where
  "stats_class kind idx = ''rssc-stats-'' @ kind @ [''123456789'' ! idx]"

definition stat_step :: "element list \<Rightarrow> pyval dict \<Rightarrow> nat \<Rightarrow> error + pyval dict" where
  "stat_step container record idx =
     (case find_element container (stats_class ''name'' idx) of
        Inl e \<Rightarrow> Inl e
      | Inr title \<Rightarrow>
          (case find_element container (stats_class ''data'' idx) of
             Inl e \<Rightarrow> Inl e
           | Inr stats \<Rightarrow>
               (case fill_widths stats of
                  [] \<Rightarrow> Inr record
                | width # widths \<Rightarrow>
                    Inr (dict_set record (innerText title) (VInt width)))))"

fun stat_loop :: "element list \<Rightarrow> nat list \<Rightarrow> pyval dict \<Rightarrow> error + pyval dict" where
  "stat_loop container [] record = Inr record"
| "stat_loop container (idx # idxs) record =
     (case stat_step container record idx of
        Inl e \<Rightarrow> Inl e
      | Inr record' \<Rightarrow> stat_loop container idxs record')"

definition set_stats :: "page \<Rightarrow> pyval dict \<Rightarrow> error + pyval dict" where
  "set_stats p record =
     (case stats_containers p of
        [] \<Rightarrow> Inr record
      | container # others \<Rightarrow> stat_loop container [0, 1, 2, 3] record)"

text \<open>Lines 222 to 240: the info fields. The loop assigns to \<^verbatim>\<open>value\<close> too.\<close>

definition infos_class :: "string \<Rightarrow> nat \<Rightarrow> string" where
  "infos_class kind idx = ''rssc-info-'' @ kind @ [''123456789'' ! idx]"

text \<open>Lines 232 to 239: the value of one info field.\<close>

definition info_value :: "element \<Rightarrow> error + pyval" where
  "info_value element =
     (if innerText element = [] then
        (case img_data_image_name element of
           None \<Rightarrow> Inl NoSuchElementException
         | Some None \<Rightarrow> Inl TypeError
         | Some (Some name) \<Rightarrow> Inr (VBool (str_contains ''Check'' name)))
      else if isnumeric (innerText element) then
        (case py_int (innerText element) of
           Inl e \<Rightarrow> Inl e
         | Inr n \<Rightarrow> Inr (VInt n))
      else Inr (VStr (innerText element)))"

definition info_step ::
  "element list \<Rightarrow> pyval dict \<Rightarrow> nat \<Rightarrow> error + (pyval dict \<times> pyval option)" where
  "info_step container record idx =
     (case find_element container (infos_class ''name'' idx) of
        Inl e \<Rightarrow> Inl e
      | Inr title \<Rightarrow>
          (case find_element container (infos_class ''data'' idx) of
             Inl e \<Rightarrow> Inl e
           | Inr element \<Rightarrow>
               (case info_value element of
                  Inl e \<Rightarrow> Inl e
                | Inr value \<Rightarrow>
                    Inr (dict_set record (innerText title) value, Some value))))"

fun info_loop ::
  "element list \<Rightarrow> nat list \<Rightarrow> pyval dict \<times> pyval option
     \<Rightarrow> error + (pyval dict \<times> pyval option)" where
  "info_loop container [] st = Inr st"
| "info_loop container (idx # idxs) (record, value) =
     (case info_step container record idx of
        Inl e \<Rightarrow> Inl e
      | Inr st' \<Rightarrow> info_loop container idxs st')"

definition set_infos ::
  "page \<Rightarrow> pyval dict \<times> pyval option \<Rightarrow> error + (pyval dict \<times> pyval option)" where
  "set_infos p st =
     (case infos_containers p of
        [] \<Rightarrow> Inr st
      | container # others \<Rightarrow> info_loop container [0, 1, 2, 3, 4, 5, 6] st)"

section \<open>The traversal (lines 176 to 244)\<close>

text \<open>
  The body of the loop for one link, up to the record it builds. \<open>web\<close> is the page the
  browser shows for a URL; \<open>value\<close> is the variable \<^verbatim>\<open>value\<close> as the items before left
  it. The result is the record and the new \<^verbatim>\<open>value\<close>, or the exception raised.
\<close>

definition process ::
  "(string \<Rightarrow> page) \<Rightarrow> string \<Rightarrow> pyval option \<Rightarrow> error + (pyval dict \<times> pyval option)" where
  "process web url value =
     (case nohero (web url) of
        None \<Rightarrow> Inl NoSuchElementException
      | Some container \<Rightarrow>
          (case set_image container (dict_set [] ''link'' (VStr url)) of
             Inl e \<Rightarrow> Inl e
           | Inr record1 \<Rightarrow>
               (case set_class container value record1 of
                  Inl e \<Rightarrow> Inl e
                | Inr (record2, value2) \<Rightarrow>
                    (case set_price container record2 of
                       Inl e \<Rightarrow> Inl e
                     | Inr record3 \<Rightarrow>
                         (case set_stats (web url) record3 of
                            Inl e \<Rightarrow> Inl e
                          | Inr record4 \<Rightarrow> set_infos (web url) (record4, value2))))))"

text \<open>
  The loop over \<^verbatim>\<open>links.items()\<close>. No exception is caught: one that is raised ends
  the run. The result is the dictionary \<^verbatim>\<open>data\<close> as the loop leaves it, and the
  exception that ended it, if any.
\<close>

fun traverse ::
  "(string \<Rightarrow> page) \<Rightarrow> nat \<Rightarrow> (string \<times> string) list \<Rightarrow> (pyval dict) dict \<Rightarrow> nat
     \<Rightarrow> pyval option \<Rightarrow> (pyval dict) dict \<times> error option" where
  "traverse web limit [] data cnt value = (data, None)"
| "traverse web limit ((name, url) # links) data cnt value =
     (case process web url value of
        Inl e \<Rightarrow> (data, Some e)
      | Inr (record, value') \<Rightarrow>
          (if cnt + 1 > limit then (dict_set data name record, None)
           else traverse web limit links (dict_set data name record) (cnt + 1) value'))"

definition scrape :: "(string \<Rightarrow> page) \<Rightarrow> (string \<times> string) list \<Rightarrow> (pyval dict) dict \<times> error option" where
  "scrape web links = traverse web LIMIT links [] 0 None"

text \<open>The same loop without the cap, for comparison: every link is visited.\<close>

fun visit_all ::
  "(string \<Rightarrow> page) \<Rightarrow> (string \<times> string) list \<Rightarrow> (pyval dict) dict
     \<Rightarrow> pyval option \<Rightarrow> (pyval dict) dict \<times> error option" where
  "visit_all web [] data value = (data, None)"
| "visit_all web ((name, url) # links) data value =
     (case process web url value of
        Inl e \<Rightarrow> (data, Some e)
      | Inr (record, value') \<Rightarrow> visit_all web links (dict_set data name record) value')"

section \<open>The tabular view (lines 253 to 258)\<close>

text \<open>
  Whether the view shares a dictionary with the catalog is a question about objects,
  so here the dictionaries live in a store: an address is an index into the list of
  dictionary objects, and a new object is appended. The catalog \<^verbatim>\<open>data\<close> maps a name
  to the address of its record; the table is the list of the addresses of the flat
  records. The values of the fields are strings, integers and booleans, which Python
  cannot mutate, so fields are copied by value.
\<close>

type_synonym addr = nat
type_synonym store = "pyval dict list"

text \<open>The inner loop: \<^verbatim>\<open>for key, value in values.items(): record[key] = value\<close>.\<close>

fun copy_fields :: "pyval dict \<Rightarrow> pyval dict \<Rightarrow> pyval dict" where
  "copy_fields record [] = record"
| "copy_fields record ((key, value) # items) = copy_fields (dict_set record key value) items"

fun make_table :: "store \<Rightarrow> (string \<times> addr) list \<Rightarrow> addr list \<Rightarrow> store \<times> addr list" where
  "make_table s [] table = (s, table)"
| "make_table s ((vehicle, values) # entries) table =
     (let record = length s;
          s1 = s @ [[(''Vehicle'', VStr vehicle)]];
          s2 = s1[record := copy_fields (s1 ! record) (s1 ! values)]
      in make_table s2 entries (table @ [record]))"

text \<open>A catalog is well formed in a store when its records are dictionaries of the
  store: objects that exist there, with no key twice.\<close>

definition catalog_in :: "store \<Rightarrow> (string \<times> addr) list \<Rightarrow> bool" where
  "catalog_in s data = list_all (\<lambda>(name, a). a < length s \<and> distinct (keys (s ! a))) data"

section \<open>Example inputs\<close>

text \<open>A listing table of two rows; the second item of the first list has no anchor.\<close>

definition example_table :: "tr list" where
  "example_table =
     [[[[Some (''Car A'', ''/wiki/A''), None]]],
      [[[Some (''Car B'', ''/wiki/B'')]], []]]"

text \<open>A hero container with an image, a class and a price.\<close>

definition example_hero :: hero where
  "example_hero =
     \<lparr>image_href = Some ''.../car.PNG?revision=3'',
      divs = [\<lparr>div_data_source = None, div_innerText = ''GTA Online''\<rparr>,
              \<lparr>div_data_source = Some ''class'',
               div_innerText = ''Vehicle class\<newline>Sports (car)''\<rparr>],
      price_texts = [''$1,234,567 (approx.)'']\<rparr>"

text \<open>Info values: one shown as an icon, one as text.\<close>

definition icon_field :: "string \<Rightarrow> element" where
  "icon_field name =
     \<lparr>class_names = [''rssc-info-data2''], innerText = [], fill_widths = [],
      img_data_image_name = Some (Some name)\<rparr>"

text \<open>The text of one character, superscript two.\<close>

definition superscript_two :: string where
  "superscript_two = [CHR 0xB2]"

definition text_field :: "string \<Rightarrow> element" where
  "text_field s =
     \<lparr>class_names = [''rssc-info-data3''], innerText = s, fill_widths = [],
      img_data_image_name = None\<rparr>"

text \<open>The label and the bar of a stat.\<close>

definition stat_label :: "nat \<Rightarrow> string \<Rightarrow> element" where
  "stat_label idx s =
     \<lparr>class_names = [stats_class ''name'' idx], innerText = s, fill_widths = [],
      img_data_image_name = None\<rparr>"

definition stat_bar :: "nat \<Rightarrow> int list \<Rightarrow> element" where
  "stat_bar idx ws =
     \<lparr>class_names = [stats_class ''data'' idx], innerText = [], fill_widths = ws,
      img_data_image_name = None\<rparr>"

text \<open>A stats container of four bars; the second bar has no filled portion.\<close>

definition example_stats :: "element list" where
  "example_stats =
     [stat_label 0 ''Speed'', stat_bar 0 [80],
      stat_label 1 ''Acceleration'', stat_bar 1 [],
      stat_label 2 ''Braking'', stat_bar 2 [33],
      stat_label 3 ''Handling'', stat_bar 3 [70]]"

definition example_stats_page :: page where
  "example_stats_page =
     \<lparr>nohero = Some example_hero, stats_containers = [example_stats], infos_containers = []\<rparr>"

text \<open>
  Three detail pages. The first has an image, a class, a price and stat bars. The second
  has no \<^verbatim>\<open>div\<close> with \<^verbatim>\<open>data-source="class"\<close>. The image of the third is not a
  \<^verbatim>\<open>.png\<close> file.
\<close>

definition page_a :: page where
  "page_a =
     \<lparr>nohero = Some example_hero, stats_containers = [example_stats], infos_containers = []\<rparr>"

definition page_b :: page where
  "page_b =
     \<lparr>nohero = Some \<lparr>image_href = Some ''.../bike.png'',
                      divs = [\<lparr>div_data_source = Some ''title'', div_innerText = ''Bike''\<rparr>],
                      price_texts = []\<rparr>,
      stats_containers = [], infos_containers = []\<rparr>"

definition page_c :: page where
  "page_c =
     \<lparr>nohero = Some \<lparr>image_href = Some ''.../boat.jpg?revision=1'',
                      divs = [\<lparr>div_data_source = Some ''class'',
                               div_innerText = ''Vehicle class\<newline>Boats''\<rparr>],
                      price_texts = []\<rparr>,
      stats_containers = [], infos_containers = []\<rparr>"

definition example_web :: "string \<Rightarrow> page" where
  "example_web url =
     (if url = ''/wiki/A'' then page_a else if url = ''/wiki/B'' then page_b else page_c)"

text \<open>The record of the first page.\<close>

definition record_a :: "pyval dict" where
  "record_a =
     [(''link'', VStr ''/wiki/A''), (''image'', VStr ''.../car.PNG''),
      (''CLASS'', VStr ''Sports ''), (''PRICE'', VInt 1234567),
      (''Speed'', VInt 80), (''Braking'', VInt 33), (''Handling'', VInt 70)]"

section \<open>Notions used in the statements\<close>



text \<open>
  A page like the first whose first stat is labelled \<^verbatim>\<open>Vehicle\<close>, its record, and a
  store that holds the records of both pages.
\<close>

definition page_v :: page where
  "page_v = page_a\<lparr>stats_containers := [example_stats[0 := stat_label 0 ''Vehicle'']]\<rparr>"

definition record_v :: "pyval dict" where
  "record_v =
     [(''link'', VStr ''/wiki/V''), (''image'', VStr ''.../car.PNG''),
      (''CLASS'', VStr ''Sports ''), (''PRICE'', VInt 1234567),
      (''Vehicle'', VInt 80), (''Braking'', VInt 33), (''Handling'', VInt 70)]"

definition example_store :: store where
  "example_store = [record_a, record_v]"

section \<open>Properties\<close>

subsection \<open>The link harvest\<close>

lemma foldl_concat_nested:
  "foldl f a (concat xss) = foldl (\<lambda>a xs. foldl f a xs) a xss"
  by (induction xss arbitrary: a) simp_all

lemma harvest_flat: "harvest t = foldl harvest_item ([], []) (items_of t)"
  by (simp add: harvest_def items_of_def foldl_concat_nested)

lemma harvest_items:
  "foldl harvest_item (links, out) items =
     (foldl (\<lambda>links (name, url). dict_set links name url) links
        (concat (map (\<lambda>item. case item of None \<Rightarrow> [] | Some a \<Rightarrow> [a]) items)),
      out @ replicate (length (filter (\<lambda>item. item = None) items))
              ''ERROR: Link element within list-item not found!'')"
proof (induction items arbitrary: links out)
  case Nil
  then show ?case by simp
next
  case (Cons item items)
  show ?case
  proof (cases item)
    case None
    then show ?thesis
      by (simp add: Cons.IH replicate_app_Cons_same)
  next
    case (Some a)
    then show ?thesis
      by (cases a) (simp add: Cons.IH)
  qed
qed

lemma dict_set_new:
  "k \<notin> set (map fst d) \<Longrightarrow> dict_set d k v = d @ [(k, v)]"
  by (induction d) auto

lemma foldl_dict_set_distinct:
  "distinct (map fst xs) \<Longrightarrow> set (map fst xs) \<inter> set (map fst d) = {} \<Longrightarrow>
   foldl (\<lambda>links (name, url). dict_set links name url) d xs = d @ xs"
proof (induction xs arbitrary: d)
  case Nil
  then show ?case by simp
next
  case (Cons x xs)
  obtain k v where x: "x = (k, v)" by (cases x)
  from Cons.prems x have new: "k \<notin> set (map fst d)" by auto
  from Cons.prems x have "distinct (map fst xs)"
    and "set (map fst xs) \<inter> set (map fst (d @ [(k, v)])) = {}"
    by auto
  from Cons.IH[OF this] show ?case
    by (simp add: x dict_set_new[OF new])
qed

text \<open>
  Claim C5. A list item under which no anchor is found adds one diagnostic line and no
  entry, and the harvest goes on: the dictionary of links is what assigning the anchors
  found, in document order, gives, and there is one diagnostic per item without an
  anchor. When the display names are distinct the dictionary is the list of the anchors
  in document order.
\<close>

theorem harvest_skips_items_without_anchor:
  "fst (harvest t) =
     foldl (\<lambda>links (name, url). dict_set links name url) [] (anchors_of t)
   \<and> snd (harvest t) =
     replicate (length (filter (\<lambda>item. item = None) (items_of t)))
       ''ERROR: Link element within list-item not found!''
   \<and> (distinct (map fst (anchors_of t)) \<longrightarrow> fst (harvest t) = anchors_of t)"
proof -
  have h: "harvest t =
     (foldl (\<lambda>links (name, url). dict_set links name url) [] (anchors_of t),
      replicate (length (filter (\<lambda>item. item = None) (items_of t)))
        ''ERROR: Link element within list-item not found!'')"
    by (simp add: harvest_flat harvest_items anchors_of_def)
  show ?thesis
    using foldl_dict_set_distinct[of "anchors_of t" "[]"] by (simp add: h)
qed

theorem harvest_skips_items_without_anchor_witness:
  "distinct (map fst (anchors_of example_table))
   \<and> items_of example_table = [Some (''Car A'', ''/wiki/A''), None, Some (''Car B'', ''/wiki/B'')]
   \<and> fst (harvest example_table) = [(''Car A'', ''/wiki/A''), (''Car B'', ''/wiki/B'')]
   \<and> snd (harvest example_table) = [''ERROR: Link element within list-item not found!'']"
  using harvest_skips_items_without_anchor[of example_table]
  by (simp add: anchors_of_def items_of_def example_table_def)

subsection \<open>The image\<close>

lemma str_index_Some:
  "str_index s sub = Some i \<Longrightarrow>
     take (length sub) (drop i s) = sub \<and> (\<forall>j<i. take (length sub) (drop j s) \<noteq> sub)"
proof (induction s arbitrary: i)
  case Nil
  then show ?case by (simp split: if_splits)
next
  case (Cons c s)
  show ?case
  proof (cases "take (length sub) (c # s) = sub")
    case True
    with Cons.prems show ?thesis by simp
  next
    case False
    with Cons.prems obtain i' where i': "str_index s sub = Some i'" "i = Suc i'"
      by auto
    from Cons.IH[OF i'(1)] False i'(2) show ?thesis
      by (auto simp: less_Suc_eq_0_disj)
  qed
qed

lemma str_index_None:
  "str_index s sub = None \<Longrightarrow> take (length sub) (drop j s) \<noteq> sub"
proof (induction s arbitrary: j)
  case Nil
  then show ?case by (simp split: if_splits)
next
  case (Cons c s)
  then show ?case
    by (cases j) (auto split: if_splits)
qed

lemma lower_take: "lower (take n s) = take n (lower s)"
  by (simp add: lower_def take_map)

text \<open>
  Claim C3. When the URL of the image contains \<^verbatim>\<open>.png\<close> in any letter case, the
  image field is the prefix of the URL that ends with the first such occurrence: the
  four characters at the first index where the lowered URL reads \<^verbatim>\<open>.png\<close> are kept
  and everything after them is dropped.
\<close>

theorem image_keeps_prefix_through_png:
  assumes href: "image_href container = Some url"
    and occ: "take 4 (drop j (lower url)) = ''.png''"
  shows "\<exists>i. set_image container record = Inr (dict_set record ''image'' (VStr (take (i + 4) url)))
           \<and> take 4 (drop i (lower url)) = ''.png''
           \<and> (\<forall>k<i. take 4 (drop k (lower url)) \<noteq> ''.png'')
           \<and> lower (take (i + 4) url) = take i (lower url) @ ''.png''"
proof -
  have len: "length ''.png'' = 4" by simp
  from str_index_None[of "lower url" "''.png''" j] occ
  obtain i where i: "str_index (lower url) ''.png'' = Some i"
    unfolding len by (cases "str_index (lower url) ''.png''") auto
  from str_index_Some[OF i]
  have at: "take 4 (drop i (lower url)) = ''.png''"
    and first: "\<forall>k<i. take 4 (drop k (lower url)) \<noteq> ''.png''"
    unfolding len by simp_all
  have "take (i + 4) (lower url) = take i (lower url) @ take 4 (drop i (lower url))"
    by (simp add: take_add)
  with at have "lower (take (i + 4) url) = take i (lower url) @ ''.png''"
    by (simp add: lower_take)
  with at first href i show ?thesis
    by (intro exI[of _ i]) (simp add: set_image_def)
qed

theorem image_keeps_prefix_through_png_witness:
  "image_href example_hero = Some ''.../car.PNG?revision=3''
   \<and> take 4 (drop 7 (lower ''.../car.PNG?revision=3'')) = ''.png''
   \<and> set_image example_hero [] = Inr [(''image'', VStr ''.../car.PNG'')]"
  using image_keeps_prefix_through_png[of example_hero "''.../car.PNG?revision=3''" 7 "[]"]
  by (simp add: example_hero_def set_image_def lower_def lower_char_def)

subsection \<open>The price\<close>

lemma str_index_chr: "(str_index s [c] = None) = (c \<notin> set s)"
  by (induction s) auto

lemma str_contains_chr: "str_contains [c] s = (c \<in> set s)"
  by (simp add: str_contains_def str_index_chr)

lemma str_contains_iff:
  "str_contains sub s = (\<exists>pre post. s = pre @ sub @ post)"
proof
  assume "str_contains sub s"
  then obtain i where i: "str_index s sub = Some i"
    by (auto simp: str_contains_def)
  from str_index_Some[OF i] have "take (length sub) (drop i s) = sub" by simp
  then have "s = take i s @ sub @ drop (length sub) (drop i s)"
    by (metis append_take_drop_id)
  then show "\<exists>pre post. s = pre @ sub @ post" by blast
next
  assume "\<exists>pre post. s = pre @ sub @ post"
  then obtain pre post where s: "s = pre @ sub @ post" by blast
  then have "take (length sub) (drop (length pre) s) = sub" by simp
  with str_index_None[of s sub "length pre"] show "str_contains sub s"
    by (auto simp: str_contains_def)
qed

lemma strip_digits: "list_all is_digit s \<Longrightarrow> strip s = s"
proof -
  assume d: "list_all is_digit s"
  have ns: "\<And>c. is_digit c \<Longrightarrow> \<not> is_space c"
    by (auto simp: is_digit_def is_space_def)
  have dw: "\<And>xs. list_all is_digit xs \<Longrightarrow> dropWhile is_space xs = xs"
    by (case_tac xs) (auto simp: ns)
  from d have "list_all is_digit (rev s)" by (simp add: list_all_iff)
  with d show ?thesis by (simp add: strip_def dw)
qed

lemma valid_digits_all: "s \<noteq> [] \<Longrightarrow> list_all is_digit s \<Longrightarrow> valid_digits s"
proof (induction s rule: valid_digits.induct)
  case 1
  then show ?case by simp
next
  case (2 c)
  then show ?case by simp
next
  case (3 c d s)
  have "\<not> is_digit (CHR ''_'')" by (simp add: is_digit_def)
  with 3 show ?case by auto
qed

lemma py_int_digits:
  assumes "s \<noteq> []" and "list_all is_digit s"
  shows "py_int s = Inr (decimal s)"
proof -
  have "\<not> is_digit (CHR ''-'')" and "\<not> is_digit (CHR ''+'')"
    by (simp_all add: is_digit_def)
  with assms have "hd s \<noteq> CHR ''-''" and "hd s \<noteq> CHR ''+''"
    by (cases s; auto)+
  moreover from assms have "filter is_digit s = s"
    by (simp add: list_all_iff)
  ultimately show ?thesis
    using assms by (simp add: py_int_def strip_digits valid_digits_all)
qed

lemma replace_append: "replace c n (a @ b) = replace c n a @ replace c n b"
  by (simp add: replace_def)

lemma replace_Cons: "replace c n (x # s) = (if x = c then n else [x]) @ replace c n s"
  by (simp add: replace_def)

lemma replace_absent: "c \<notin> set s \<Longrightarrow> replace c n s = s"
  by (induction s) (auto simp: replace_def)

lemma set_replace: "set (replace c n s) \<subseteq> set s \<union> set n"
  by (induction s) (auto simp: replace_def)

lemma replace_comma_digits:
  "list_all (\<lambda>c. is_digit c \<or> c = CHR '','') body \<Longrightarrow>
     replace (CHR '','') [] body = filter is_digit body"
proof (induction body)
  case Nil
  then show ?case by (simp add: replace_def)
next
  case (Cons c body)
  have "\<not> is_digit (CHR '','')" by (simp add: is_digit_def)
  with Cons show ?case by (auto simp: replace_Cons)
qed

lemma str_index_chr_first:
  "c \<notin> set p \<Longrightarrow> str_index (p @ c # q) [c] = Some (length p)"
  by (induction p) auto

lemma split_no_sep: "sep \<notin> set t \<Longrightarrow> split sep t = [t]"
  by (induction t) (auto split: list.splits)

lemma split_first: "sep \<notin> set t \<Longrightarrow> split sep (t @ sep # r) = t # split sep r"
  by (induction t) (auto split: list.splits)

lemma price_token:
  assumes price: "price = pre @ ''$'' @ body @ rest"
    and pre: "CHR ''$'' \<notin> set pre"
    and body: "list_all (\<lambda>c. is_digit c \<or> c = CHR '','') body"
    and digit: "filter is_digit body \<noteq> []"
    and rest: "rest = [] \<or> hd rest \<in> {CHR '' '', CHR 0x0A, CHR ''(''}"
    and texts: "price_texts container = price # others"
  shows "set_price container record
           = Inr (dict_set record ''PRICE'' (VInt (decimal (filter is_digit body))))"
proof -
  let ?clean = "\<lambda>s. replace (CHR ''('') '' '' (replace (CHR 0x0A) '' '' (replace (CHR '','') [] s))"
  let ?ds = "filter is_digit body"
  have nd: "\<not> is_digit (CHR ''$'')" "\<not> is_digit (CHR '' '')" "\<not> is_digit (CHR 0x0A)"
    "\<not> is_digit (CHR ''('')"
    by (simp_all add: is_digit_def)
  have all: "list_all is_digit ?ds" by (simp add: list_all_iff)
  with nd have free: "CHR ''$'' \<notin> set ?ds" "CHR '' '' \<notin> set ?ds" "CHR 0x0A \<notin> set ?ds"
    "CHR ''('' \<notin> set ?ds"
    by (auto simp: list_all_iff)
  have cbody: "?clean body = ?ds"
    using free by (simp add: replace_comma_digits[OF body] replace_absent)
  have cpre: "CHR ''$'' \<notin> set (?clean pre)"
  proof -
    have "set (?clean pre) \<subseteq> set pre \<union> {CHR '' ''}"
      using set_replace[of "CHR ''(''" "'' ''" "replace (CHR 0x0A) '' '' (replace (CHR '','') [] pre)"]
        set_replace[of "CHR 0x0A" "'' ''" "replace (CHR '','') [] pre"]
        set_replace[of "CHR '',''" "[]" pre]
      by auto
    with pre show ?thesis by auto
  qed
  have crest: "?clean rest = [] \<or> (\<exists>r. ?clean rest = CHR '' '' # r)"
  proof (cases rest)
    case Nil
    then show ?thesis by (simp add: replace_def)
  next
    case (Cons c r)
    with rest have "c = CHR '' '' \<or> c = CHR 0x0A \<or> c = CHR ''(''" by simp
    then show ?thesis
      by (auto simp: Cons replace_Cons)
  qed
  have cprice: "?clean price = ?clean pre @ CHR ''$'' # ?ds @ ?clean rest"
    by (simp add: price replace_append cbody replace_Cons)
  have contains: "str_contains ''$'' price"
    by (simp add: str_contains_chr price)
  have idx: "str_index (?clean price) ''$'' = Some (length (?clean pre))"
    unfolding cprice using str_index_chr_first[OF cpre] by simp
  have dropped: "drop (length (?clean pre)) (?clean price) = CHR ''$'' # ?ds @ ?clean rest"
    unfolding cprice by simp
  have nosp: "CHR '' '' \<notin> set (CHR ''$'' # ?ds)"
    using free by simp
  have token: "\<exists>tokens. split (CHR '' '') (CHR ''$'' # ?ds @ ?clean rest)
      = (CHR ''$'' # ?ds) # tokens"
  proof -
    from crest show ?thesis
    proof
      assume "?clean rest = []"
      with split_no_sep[OF nosp] show ?thesis by simp
    next
      assume "\<exists>r. ?clean rest = CHR '' '' # r"
      then obtain r where r: "?clean rest = CHR '' '' # r" by blast
      from split_first[OF nosp, of r] show ?thesis
        unfolding r by simp
    qed
  qed
  then obtain tokens where tk: "split (CHR '' '') (CHR ''$'' # ?ds @ ?clean rest)
      = (CHR ''$'' # ?ds) # tokens" by blast
  have strip_dollar: "replace (CHR ''$'') [] (CHR ''$'' # ?ds) = ?ds"
    using free by (simp add: replace_Cons replace_absent)
  have int: "py_int ?ds = Inr (decimal ?ds)"
    using digit all by (rule py_int_digits)
  have tk': "split (CHR '' '') (drop (length (?clean pre)) (?clean price))
      = (CHR ''$'' # ?ds) # tokens"
    unfolding dropped by (rule tk)
  show ?thesis
    using texts contains
    by (simp add: set_price_def Let_def idx tk' strip_dollar int del: split.simps)
qed

text \<open>
  Claim C4. The price text \<^verbatim>\<open>$1,234,567 (approx.)\<close> stores the integer 1234567 under
  \<^verbatim>\<open>PRICE\<close>. When no price element is found, or the text of the first one has no
  \<^verbatim>\<open>$\<close>, the record is left as it was, so no \<^verbatim>\<open>PRICE\<close> field is added. In
  general, when the first \<^verbatim>\<open>$\<close> of the text is followed by digits and thousands
  separators up to the end, a space, a newline or an opening parenthesis, the digits
  are stored as one integer.
\<close>

theorem price_field:
  "(price_texts container = ''$1,234,567 (approx.)'' # others \<longrightarrow>
      set_price container record = Inr (dict_set record ''PRICE'' (VInt 1234567)))
   \<and> (price_texts container = [] \<longrightarrow> set_price container record = Inr record)
   \<and> (price_texts container = price # others \<and> CHR ''$'' \<notin> set price \<longrightarrow>
      set_price container record = Inr record)
   \<and> (price_texts container = (pre @ ''$'' @ body @ rest) # others
       \<and> CHR ''$'' \<notin> set pre
       \<and> list_all (\<lambda>c. is_digit c \<or> c = CHR '','') body \<and> filter is_digit body \<noteq> []
       \<and> (rest = [] \<or> hd rest \<in> {CHR '' '', CHR 0x0A, CHR ''(''}) \<longrightarrow>
      set_price container record
        = Inr (dict_set record ''PRICE'' (VInt (decimal (filter is_digit body)))))"
proof (intro conjI impI)
  assume "price_texts container = ''$1,234,567 (approx.)'' # others"
  then show "set_price container record = Inr (dict_set record ''PRICE'' (VInt 1234567))"
    by (simp add: set_price_def str_contains_def replace_def py_int_def strip_def
        is_space_def is_digit_def decimal_def digit_val_def)
next
  assume "price_texts container = []"
  then show "set_price container record = Inr record"
    by (simp add: set_price_def)
next
  assume "price_texts container = price # others \<and> CHR ''$'' \<notin> set price"
  then show "set_price container record = Inr record"
    by (simp add: set_price_def str_contains_chr)
next
  assume "price_texts container = (pre @ ''$'' @ body @ rest) # others
       \<and> CHR ''$'' \<notin> set pre
       \<and> list_all (\<lambda>c. is_digit c \<or> c = CHR '','') body \<and> filter is_digit body \<noteq> []
       \<and> (rest = [] \<or> hd rest \<in> {CHR '' '', CHR 0x0A, CHR ''(''})"
  then show "set_price container record
        = Inr (dict_set record ''PRICE'' (VInt (decimal (filter is_digit body))))"
    using price_token[of "pre @ ''$'' @ body @ rest" pre body rest container others "record"]
    by blast
qed

theorem price_field_witness:
  "price_texts example_hero = [''$1,234,567 (approx.)'']
   \<and> set_price example_hero [] = Inr [(''PRICE'', VInt 1234567)]
   \<and> set_price (example_hero\<lparr>price_texts := []\<rparr>) [(''link'', VStr ''u'')]
       = Inr [(''link'', VStr ''u'')]
   \<and> CHR ''$'' \<notin> set ''Not available''
   \<and> set_price (example_hero\<lparr>price_texts := [''Not available'']\<rparr>) [(''link'', VStr ''u'')]
       = Inr [(''link'', VStr ''u'')]
   \<and> set_price (example_hero\<lparr>price_texts := [''Price\<newline>$2,500,000\<newline>(Online)'']\<rparr>) []
       = Inr [(''PRICE'', VInt 2500000)]"
  using price_field[of example_hero "[]" "[]"]
    price_field[of "example_hero\<lparr>price_texts := []\<rparr>" "[]" "[(''link'', VStr ''u'')]"]
    price_field[of "example_hero\<lparr>price_texts := [''Not available'']\<rparr>" "[]"
      "[(''link'', VStr ''u'')]" "''Not available''"]
    price_field[of "example_hero\<lparr>price_texts := [''Price\<newline>$2,500,000\<newline>(Online)'']\<rparr>"
      "[]" "[]" "[]" "''Price\<newline>''" "''2,500,000''" "''\<newline>(Online)''"]
  by (simp add: example_hero_def is_digit_def decimal_def digit_val_def)

subsection \<open>The info fields\<close>

lemma digit_is_numeric: "list_all is_digit s \<Longrightarrow> list_all is_numeric s"
  by (simp add: list_all_iff is_numeric_def)

text \<open>
  Claim C2, as amended. For an info field with empty text whose nested image carries an
  identifier, the value is true exactly when the identifier contains \<^verbatim>\<open>Check\<close>, in
  this letter case, and false otherwise; text that is not empty and made of decimal
  digits gives the integer it denotes; text that is not empty and not numeric (for
  which \<^verbatim>\<open>isnumeric\<close> is false) is kept as it is.
\<close>

theorem info_value_typed:
  "(innerText element = [] \<and> img_data_image_name element = Some (Some name) \<longrightarrow>
      info_value element = Inr (VBool (\<exists>pre post. name = pre @ ''Check'' @ post)))
   \<and> (innerText element \<noteq> [] \<and> list_all is_digit (innerText element) \<longrightarrow>
      info_value element = Inr (VInt (decimal (innerText element))))
   \<and> (innerText element \<noteq> [] \<and> \<not> isnumeric (innerText element) \<longrightarrow>
      info_value element = Inr (VStr (innerText element)))"
  by (simp add: info_value_def isnumeric_def py_int_digits str_contains_iff digit_is_numeric)

theorem info_value_typed_witness:
  "info_value (icon_field ''Check-Yes'') = Inr (VBool True)
   \<and> info_value (icon_field ''Cross-No'') = Inr (VBool False)
   \<and> info_value (text_field ''42'') = Inr (VInt 42)
   \<and> \<not> isnumeric ''Rear-wheel drive''
   \<and> info_value (text_field ''Rear-wheel drive'') = Inr (VStr ''Rear-wheel drive'')"
proof -
  have yes: "\<exists>pre post. ''Check-Yes'' = pre @ ''Check'' @ post"
    using str_contains_iff[of "''Check''" "''Check-Yes''"] by (simp add: str_contains_def)
  have no: "\<not> (\<exists>pre post. ''Cross-No'' = pre @ ''Check'' @ post)"
    using str_contains_iff[of "''Check''" "''Cross-No''"] by (simp add: str_contains_def)
  have plain: "\<not> isnumeric ''Rear-wheel drive''"
    by (simp add: isnumeric_def is_numeric_def is_digit_def)
  show ?thesis
    using yes no plain
      info_value_typed[of "icon_field ''Check-Yes''" "''Check-Yes''"]
      info_value_typed[of "icon_field ''Cross-No''" "''Cross-No''"]
      info_value_typed[of "text_field ''42''"]
      info_value_typed[of "text_field ''Rear-wheel drive''"]
    by (simp add: icon_field_def text_field_def is_digit_def decimal_def digit_val_def)
qed

text \<open>
  Claim C2 as stated names \<^verbatim>\<open>Check-No\<close> as an identifier that gives false. It
  contains \<^verbatim>\<open>Check\<close>, so the value is true. It also has an integer for every numeric
  text. The text of the one character superscript two is numeric for \<^verbatim>\<open>isnumeric\<close>
  and is no literal for \<^verbatim>\<open>int\<close>, which raises \<^verbatim>\<open>ValueError\<close>.
\<close>

theorem info_check_no_counterexample:
  "info_value (icon_field ''Check-No'') = Inr (VBool True)
   \<and> info_value (icon_field ''Check-No'') \<noteq> Inr (VBool False)
   \<and> isnumeric superscript_two
   \<and> info_value (text_field superscript_two) = Inl ValueError"
  by (simp add: info_value_def icon_field_def text_field_def superscript_two_def
      str_contains_def isnumeric_def is_numeric_def is_digit_def py_int_def strip_def
      is_space_def)

subsection \<open>The stat bars\<close>

lemma all_less_4: "(\<forall>idx<(4::nat). P idx) = (P 0 \<and> P 1 \<and> P 2 \<and> P 3)"
proof -
  have "\<And>idx::nat. (idx < 4) = (idx = 0 \<or> idx = 1 \<or> idx = 2 \<or> idx = 3)"
    by arith
  then show ?thesis by auto
qed

lemma stat_step_found:
  assumes "find_element container (stats_class ''name'' idx) = Inr title"
    and "find_element container (stats_class ''data'' idx) = Inr stats"
  shows "stat_step container record idx =
           Inr (case fill_widths stats of
                  [] \<Rightarrow> record
                | width # widths \<Rightarrow> dict_set record (innerText title) (VInt width))"
  using assms by (simp add: stat_step_def split: list.split)

text \<open>
  Claim C8. Without a stats container the record is left as it was: no stat field.
  With a container in which the name label and the data bar of each index 1 to 4 are
  found, the four indices are handled one after the other, each on its own: an index
  whose bar has no filled portion adds nothing, and every index whose bar has one is
  recorded under its label with the width of the filled portion.
\<close>

theorem stats_skip_missing_fill:
  "(stats_containers p = [] \<longrightarrow> set_stats p record = Inr record)
   \<and> (stats_containers p = container # others
       \<and> (\<forall>idx<4. find_element container (stats_class ''name'' idx) = Inr (title idx)
                 \<and> find_element container (stats_class ''data'' idx) = Inr (stats idx)) \<longrightarrow>
       set_stats p record =
         Inr (foldl (\<lambda>r idx. case fill_widths (stats idx) of
                                [] \<Rightarrow> r
                              | width # widths \<Rightarrow> dict_set r (innerText (title idx)) (VInt width))
                record [0, 1, 2, 3]))"
proof (intro conjI impI)
  assume "stats_containers p = []"
  then show "set_stats p record = Inr record"
    by (simp add: set_stats_def)
next
  assume a: "stats_containers p = container # others
       \<and> (\<forall>idx<4. find_element container (stats_class ''name'' idx) = Inr (title idx)
                 \<and> find_element container (stats_class ''data'' idx) = Inr (stats idx))"
  then have f: "\<And>idx r. idx < 4 \<Longrightarrow> stat_step container r idx =
      Inr (case fill_widths (stats idx) of
             [] \<Rightarrow> r
           | width # widths \<Rightarrow> dict_set r (innerText (title idx)) (VInt width))"
    by (simp add: stat_step_found)
  from a show "set_stats p record =
         Inr (foldl (\<lambda>r idx. case fill_widths (stats idx) of
                                [] \<Rightarrow> r
                              | width # widths \<Rightarrow> dict_set r (innerText (title idx)) (VInt width))
                record [0, 1, 2, 3])"
    by (simp add: set_stats_def f)
qed

theorem stats_skip_missing_fill_witness:
  "find_element example_stats (stats_class ''name'' 1) = Inr (example_stats ! 2)
   \<and> find_element example_stats (stats_class ''data'' 1) = Inr (example_stats ! 3)
   \<and> fill_widths (example_stats ! 3) = []
   \<and> set_stats example_stats_page [] =
       Inr [(''Speed'', VInt 80), (''Braking'', VInt 33), (''Handling'', VInt 70)]
   \<and> set_stats (example_stats_page\<lparr>stats_containers := []\<rparr>) [] = Inr []"
proof -
  have found: "\<forall>idx<4. find_element example_stats (stats_class ''name'' idx)
               = Inr (example_stats ! (2 * idx))
           \<and> find_element example_stats (stats_class ''data'' idx)
               = Inr (example_stats ! (2 * idx + 1))"
    by (simp add: all_less_4 example_stats_def stat_label_def stat_bar_def
        stats_class_def)
  show ?thesis
    using found
      stats_skip_missing_fill[of example_stats_page "[]" example_stats "[]"
        "\<lambda>idx. example_stats ! (2 * idx)" "\<lambda>idx. example_stats ! (2 * idx + 1)"]
      stats_skip_missing_fill[of "example_stats_page\<lparr>stats_containers := []\<rparr>" "[]"]
    by (simp add: example_stats_page_def example_stats_def stat_label_def stat_bar_def)
qed

subsection \<open>The class\<close>

lemmas example_defs =
  example_web_def page_a_def page_b_def page_c_def example_hero_def example_stats_def
  stat_label_def stat_bar_def stats_class_def record_a_def

lemmas model_defs =
  process_def set_image_def set_class_def set_price_def set_stats_def set_infos_def
  stat_step_def lower_def lower_char_def str_contains_def replace_def py_int_def strip_def
  is_space_def is_digit_def decimal_def digit_val_def


lemma class_loop_none:
  "list_all (\<lambda>el. div_data_source el \<noteq> Some ''class'') ds \<Longrightarrow> class_loop ds value = value"
  by (induction ds) auto

text \<open>
  Claim C6, as amended. When no \<^verbatim>\<open>div\<close> of the hero container has
  \<^verbatim>\<open>data-source="class"\<close>, the class step reads \<^verbatim>\<open>value\<close> as the items before left
  it. While nothing has bound it the read raises \<^verbatim>\<open>NameError\<close> (the script is not
  inside a function), which for the first link ends the run with an empty catalog. Once
  it is bound the read raises no \<^verbatim>\<open>NameError\<close>.
\<close>

theorem class_without_div:
  assumes "list_all (\<lambda>el. div_data_source el \<noteq> Some ''class'') (divs container)"
  shows "set_class container None record = Inl NameError
     \<and> set_class container (Some v) record \<noteq> Inl NameError
     \<and> (nohero (web url) = Some container
          \<and> set_image container [(''link'', VStr url)] = Inr r \<longrightarrow>
        scrape web ((name, url) # links) = ([], Some NameError))"
proof -
  have 1: "set_class container None r0 = Inl NameError" for r0
    using assms by (simp add: set_class_def class_loop_none)
  have 2: "set_class container (Some v) record \<noteq> Inl NameError"
    using assms
    by (simp add: set_class_def class_loop_none split: pyval.split list.split)
  show ?thesis
    using 1 2 by (simp add: scrape_def process_def)
qed

theorem class_without_div_witness:
  "list_all (\<lambda>el. div_data_source el \<noteq> Some ''class'') (divs (the (nohero page_b)))
   \<and> scrape example_web [(''Car B'', ''/wiki/B''), (''Car A'', ''/wiki/A'')]
       = ([], Some NameError)"
  using class_without_div[of "the (nohero page_b)" _ _ example_web "''/wiki/B''"
      "[(''link'', VStr ''/wiki/B''), (''image'', VStr ''.../bike.png'')]" "''Car B''"
      "[(''Car A'', ''/wiki/A'')]"]
  by (simp add: example_web_def page_b_def set_image_def lower_def lower_char_def)

text \<open>
  Claim C6 as stated says that the class step raises on such a page. On the second of
  two links it does not: \<^verbatim>\<open>value\<close> still holds the class text of the first page, the
  run ends without an exception, and the second record carries the class of the first.
\<close>

theorem class_stale_value_counterexample:
  "list_all (\<lambda>el. div_data_source el \<noteq> Some ''class'') (divs (the (nohero page_b)))
   \<and> scrape example_web [(''Car A'', ''/wiki/A''), (''Car B'', ''/wiki/B'')]
       = ([(''Car A'', record_a),
           (''Car B'', [(''link'', VStr ''/wiki/B''), (''image'', VStr ''.../bike.png''),
                        (''CLASS'', VStr ''Sports '')])],
          None)"
  by (simp add: scrape_def LIMIT_def example_defs model_defs)

subsection \<open>An image that is not a png file\<close>

text \<open>
  Claim C10. When the URL of the hero image of an item contains no \<^verbatim>\<open>.png\<close> in any
  letter case, processing the item raises \<^verbatim>\<open>ValueError\<close> at the image step, before
  the record is inserted: the traversal ends there with the catalog as it was before
  the item.
\<close>

theorem image_without_png_raises:
  assumes hero: "nohero (web url) = Some container"
    and href: "image_href container = Some href"
    and nopng: "\<not> (\<exists>pre post. lower href = pre @ ''.png'' @ post)"
  shows "process web url value = Inl ValueError
     \<and> traverse web limit ((name, url) # links) data cnt value = (data, Some ValueError)"
proof -
  from nopng have "\<not> str_contains ''.png'' (lower href)"
    by (simp only: str_contains_iff not_False_eq_True)
  then have "str_index (lower href) ''.png'' = None"
    by (simp add: str_contains_def)
  with hero href have "process web url value = Inl ValueError"
    by (simp add: process_def set_image_def)
  then show ?thesis by simp
qed

theorem image_without_png_raises_witness:
  "nohero (example_web ''/wiki/C'') = Some (the (nohero page_c))
   \<and> image_href (the (nohero page_c)) = Some ''.../boat.jpg?revision=1''
   \<and> \<not> (\<exists>pre post. lower ''.../boat.jpg?revision=1'' = pre @ ''.png'' @ post)
   \<and> process example_web ''/wiki/C'' None = Inl ValueError
   \<and> traverse example_web LIMIT [(''Car C'', ''/wiki/C''), (''Car A'', ''/wiki/A'')]
        [(''Car B'', [])] 1 None = ([(''Car B'', [])], Some ValueError)"
proof -
  have nopng: "\<not> (\<exists>pre post. lower ''.../boat.jpg?revision=1'' = pre @ ''.png'' @ post)"
    using str_contains_iff[of "''.png''" "lower ''.../boat.jpg?revision=1''"]
    by (simp add: str_contains_def lower_def lower_char_def)
  have hero: "nohero (example_web ''/wiki/C'') = Some (the (nohero page_c))"
    by (simp add: example_web_def page_c_def)
  have href: "image_href (the (nohero page_c)) = Some ''.../boat.jpg?revision=1''"
    by (simp add: page_c_def)
  from image_without_png_raises[of example_web "''/wiki/C''" "the (nohero page_c)"
      "''.../boat.jpg?revision=1''" None LIMIT "''Car C''"
      "[(''Car A'', ''/wiki/A'')]" "[(''Car B'', [])]" 1]
  show ?thesis using nopng hero href by simp
qed

subsection \<open>The fields of a record\<close>

lemma keys_dict_set_list:
  "keys (dict_set d k v) = (if k \<in> set (keys d) then keys d else keys d @ [k])"
  by (induction d) (force simp: keys_def)+























subsection \<open>The cap\<close>

lemma traverse_visit_all:
  "cnt \<le> limit \<Longrightarrow>
     traverse web limit links data cnt value
       = visit_all web (take (limit + 1 - cnt) links) data value"
proof (induction links arbitrary: data cnt "value")
  case Nil
  then show ?case by simp
next
  case (Cons link links)
  obtain n u where link: "link = (n, u)" by (cases link)
  from Cons.prems obtain k where k: "limit + 1 - cnt = Suc k" and k': "k = limit - cnt"
    by (cases "limit + 1 - cnt") auto
  show ?case
  proof (cases "process web u value")
    case (Inl err)
    with link k show ?thesis by simp
  next
    case (Inr res)
    obtain r v2 where res: "res = (r, v2)" by (cases res)
    show ?thesis
    proof (cases "cnt + 1 > limit")
      case True
      with Cons.prems k' have "k = 0" by simp
      with True link Inr res k show ?thesis by simp
    next
      case False
      then have le: "cnt + 1 \<le> limit" by simp
      from le k' have "limit + 1 - (cnt + 1) = k" by simp
      with Cons.IH[OF le, of "dict_set data n r" v2] False link Inr res k
      show ?thesis by simp
    qed
  qed
qed

lemma visit_all_keys:
  "visit_all web links data value = (data', None) \<Longrightarrow> distinct (map fst links) \<Longrightarrow>
   set (map fst links) \<inter> set (keys data) = {} \<Longrightarrow>
     keys data' = keys data @ map fst links"
proof (induction links arbitrary: data "value")
  case Nil
  then show ?case by simp
next
  case (Cons link links)
  obtain n u where link: "link = (n, u)" by (cases link)
  from Cons.prems(1) link obtain r v2 where
    p: "process web u value = Inr (r, v2)"
    and rest: "visit_all web links (dict_set data n r) v2 = (data', None)"
    by (auto split: sum.splits)
  from Cons.prems link have new: "n \<notin> set (keys data)" by auto
  then have ks: "keys (dict_set data n r) = keys data @ [n]"
    by (simp add: keys_dict_set_list)
  from Cons.prems link have "distinct (map fst links)"
    and "set (map fst links) \<inter> set (keys (dict_set data n r)) = {}"
    by (auto simp: ks)
  from Cons.IH[OF rest this] show ?case
    by (simp add: ks link)
qed

text \<open>
  Claim C1, as amended. The test \<^verbatim>\<open>cnt > LIMIT\<close> stands at the end of the loop body,
  after the counter was incremented and after the item was processed in full and added
  to the catalog. So the traversal with cap \<open>N\<close> is the traversal without a cap of the
  first \<open>N + 1\<close> links (151 for the cap of the script), and when there are more than
  \<open>N\<close> links and no exception the catalog has exactly \<open>N + 1\<close> records.
\<close>

theorem cap_admits_one_more_item:
  "traverse web limit links [] 0 value = visit_all web (take (limit + 1) links) [] value
   \<and> scrape web links = visit_all web (take 151 links) [] None
   \<and> (distinct (map fst links) \<and> limit < length links
        \<and> traverse web limit links [] 0 value = (data, None) \<longrightarrow>
      keys data = take (limit + 1) (map fst links) \<and> length data = limit + 1)"
proof (intro conjI impI)
  show eq: "traverse web limit links [] 0 value
      = visit_all web (take (limit + 1) links) [] value"
    using traverse_visit_all[of 0 limit web links "[]" "value"] by simp
  show "scrape web links = visit_all web (take 151 links) [] None"
    using traverse_visit_all[of 0 LIMIT web links "[]" None]
    by (simp add: scrape_def LIMIT_def)
  assume a: "distinct (map fst links) \<and> limit < length links
        \<and> traverse web limit links [] 0 value = (data, None)"
  then have v: "visit_all web (take (limit + 1) links) [] value = (data, None)"
    by (simp add: eq)
  from a have d: "distinct (map fst (take (limit + 1) links))"
    by (simp add: take_map[symmetric] distinct_take)
  from visit_all_keys[OF v d] show ks: "keys data = take (limit + 1) (map fst links)"
    by (simp add: keys_def take_map)
  from a have "length (take (limit + 1) (map fst links)) = limit + 1" by simp
  with ks show "length data = limit + 1"
    by (metis keys_def length_map)
qed

theorem cap_admits_one_more_item_witness:
  "distinct (map fst [(''Car 1'', ''/wiki/A''), (''Car 2'', ''/wiki/A''),
                      (''Car 3'', ''/wiki/A''), (''Car 4'', ''/wiki/A'')])
   \<and> traverse example_web 2
        [(''Car 1'', ''/wiki/A''), (''Car 2'', ''/wiki/A''),
         (''Car 3'', ''/wiki/A''), (''Car 4'', ''/wiki/A'')] [] 0 None
       = ([(''Car 1'', record_a), (''Car 2'', record_a), (''Car 3'', record_a)], None)
   \<and> length [(''Car 1'', record_a), (''Car 2'', record_a), (''Car 3'', record_a)] = 2 + 1"
proof -
  have p: "process example_web ''/wiki/A'' v
      = Inr (record_a, Some (VStr ''Vehicle class\<newline>Sports (car)''))" for v
    by (simp add: example_defs model_defs)
  have t: "traverse example_web 2
        [(''Car 1'', ''/wiki/A''), (''Car 2'', ''/wiki/A''),
         (''Car 3'', ''/wiki/A''), (''Car 4'', ''/wiki/A'')] [] 0 None
       = ([(''Car 1'', record_a), (''Car 2'', record_a), (''Car 3'', record_a)], None)"
    by (simp add: p)
  from cap_admits_one_more_item[of example_web 2
        "[(''Car 1'', ''/wiki/A''), (''Car 2'', ''/wiki/A''),
          (''Car 3'', ''/wiki/A''), (''Car 4'', ''/wiki/A'')]" None
        "[(''Car 1'', record_a), (''Car 2'', record_a), (''Car 3'', record_a)]"] t
  show ?thesis by simp
qed

text \<open>
  Claim C1 as stated has exactly \<open>N\<close> records for cap \<open>N\<close>. With cap 1 and three
  links the catalog has two.
\<close>

theorem cap_one_gives_two_counterexample:
  "traverse example_web 1
     [(''Car 1'', ''/wiki/A''), (''Car 2'', ''/wiki/A''), (''Car 3'', ''/wiki/A'')] [] 0 None
    = ([(''Car 1'', record_a), (''Car 2'', record_a)], None)
   \<and> length (fst (traverse example_web 1
        [(''Car 1'', ''/wiki/A''), (''Car 2'', ''/wiki/A''), (''Car 3'', ''/wiki/A'')]
        [] 0 None)) = 2"
proof -
  have p: "process example_web ''/wiki/A'' v
      = Inr (record_a, Some (VStr ''Vehicle class\<newline>Sports (car)''))" for v
    by (simp add: example_defs model_defs)
  show ?thesis by (simp add: p)
qed

subsection \<open>The tabular view\<close>

lemma copy_fields_distinct:
  "distinct (keys r) \<Longrightarrow> set (keys r) \<inter> set (keys d) = {} \<Longrightarrow> copy_fields d r = d @ r"
proof (induction r arbitrary: d)
  case Nil
  then show ?case by simp
next
  case (Cons kv r)
  obtain k v where kv: "kv = (k, v)" by (cases kv)
  from Cons.prems kv have new: "k \<notin> set (keys d)" by (auto simp: keys_def)
  then have ds: "dict_set d k v = d @ [(k, v)]"
    by (simp add: dict_set_new keys_def)
  from Cons.prems kv have "distinct (keys r)"
    and "set (keys r) \<inter> set (keys (d @ [(k, v)])) = {}"
    by (auto simp: keys_def)
  from Cons.IH[OF this] show ?case
    by (simp add: kv ds)
qed

lemma make_table_run:
  "list_all (\<lambda>(name, a). a < length s) data \<Longrightarrow>
   make_table s data table =
     (s @ map (\<lambda>(vehicle, values). copy_fields [(''Vehicle'', VStr vehicle)] (s ! values)) data,
      table @ [length s ..< length s + length data])"
proof (induction data arbitrary: s table)
  case Nil
  then show ?case by simp
next
  case (Cons entry data)
  obtain vehicle "values" where entry: "entry = (vehicle, values)" by (cases entry)
  let ?flat = "copy_fields [(''Vehicle'', VStr vehicle)] (s ! values)"
  from Cons.prems entry have v: "values < length s" by simp
  from Cons.prems have rest: "list_all (\<lambda>(name, a). a < length (s @ [?flat])) data"
    by (auto simp: list_all_iff)
  have step: "make_table s (entry # data) table = make_table (s @ [?flat]) data (table @ [length s])"
    using v by (simp add: entry Let_def nth_append)
  from Cons.prems have same: "map (\<lambda>(vehicle, values). copy_fields [(''Vehicle'', VStr vehicle)] ((s @ [?flat]) ! values)) data
      = map (\<lambda>(vehicle, values). copy_fields [(''Vehicle'', VStr vehicle)] (s ! values)) data"
    by (auto simp: list_all_iff nth_append)
  have upt: "[length s ..< length s + length (entry # data)]
      = length s # [length (s @ [?flat]) ..< length (s @ [?flat]) + length data]"
    by (subst upt_rec) simp
  show ?case
    unfolding step Cons.IH[OF rest] same upt by (simp add: entry)
qed

text \<open>
  Claim C9, as amended. For a catalog whose records are dictionaries of the store:
  building the table changes no object that was in the store, so every record of the
  catalog is as it was; the flat records are new objects, one for each entry of the
  catalog in order; overwriting a flat record changes no record of the catalog; and for
  each entry whose record has no field named \<^verbatim>\<open>Vehicle\<close>, the flat record is the
  field \<^verbatim>\<open>Vehicle\<close> with the name of the entry followed by the fields of the record
  in their order.
\<close>

theorem table_is_fresh_copy:
  assumes wf: "catalog_in s data"
    and run: "make_table s data [] = (s', table)"
  shows "take (length s) s' = s
     \<and> length s' = length s + length data
     \<and> table = [length s ..< length s + length data]
     \<and> (\<forall>record \<in> set table. \<forall>r. take (length s) (s'[record := r]) = s)
     \<and> (\<forall>i < length data. ''Vehicle'' \<notin> set (keys (s ! snd (data ! i))) \<longrightarrow>
          s' ! (table ! i) = (''Vehicle'', VStr (fst (data ! i))) # s ! snd (data ! i))"
proof -
  let ?flat = "\<lambda>(vehicle, values). copy_fields [(''Vehicle'', VStr vehicle)] (s ! values)"
  from wf have valid: "list_all (\<lambda>(name, a). a < length s) data"
    by (auto simp: catalog_in_def list_all_iff)
  from make_table_run[OF valid, of "[]"] run
  have s': "s' = s @ map ?flat data"
    and table: "table = [length s ..< length s + length data]"
    by simp_all
  have 1: "take (length s) s' = s" by (simp add: s')
  have 2: "length s' = length s + length data" by (simp add: s')
  have 4: "\<forall>record \<in> set table. \<forall>r. take (length s) (s'[record := r]) = s"
    by (auto simp: table s' list_update_append)
  have 5: "\<forall>i < length data. ''Vehicle'' \<notin> set (keys (s ! snd (data ! i))) \<longrightarrow>
          s' ! (table ! i) = (''Vehicle'', VStr (fst (data ! i))) # s ! snd (data ! i)"
  proof (intro allI impI)
    fix i
    assume i: "i < length data" and nov: "''Vehicle'' \<notin> set (keys (s ! snd (data ! i)))"
    obtain vehicle a where entry: "data ! i = (vehicle, a)" by (cases "data ! i")
    from i entry have "(vehicle, a) \<in> set data" by (metis nth_mem)
    with wf have d: "distinct (keys (s ! a))"
      by (auto simp: catalog_in_def list_all_iff)
    from nov entry
    have "set (keys (s ! a)) \<inter> set (keys [(''Vehicle'', VStr vehicle)]) = {}"
      by (simp add: keys_def)
    from copy_fields_distinct[OF d this]
    have flat: "copy_fields [(''Vehicle'', VStr vehicle)] (s ! a) = (''Vehicle'', VStr vehicle) # s ! a"
      by simp
    from i have "s' ! (table ! i) = ?flat (data ! i)"
      by (simp add: s' table nth_append)
    with entry flat show "s' ! (table ! i) = (''Vehicle'', VStr (fst (data ! i))) # s ! snd (data ! i)"
      by simp
  qed
  from 1 2 table 4 5 show ?thesis by blast
qed

theorem table_is_fresh_copy_witness:
  "catalog_in example_store [(''Car A'', 0), (''Car V'', 1)]
   \<and> make_table example_store [(''Car A'', 0), (''Car V'', 1)] []
       = (example_store @
            [(''Vehicle'', VStr ''Car A'') # record_a,
             [(''Vehicle'', VInt 80), (''link'', VStr ''/wiki/V''),
              (''image'', VStr ''.../car.PNG''), (''CLASS'', VStr ''Sports ''),
              (''PRICE'', VInt 1234567), (''Braking'', VInt 33), (''Handling'', VInt 70)]],
          [2, 3])
   \<and> ''Vehicle'' \<notin> set (keys record_a)
   \<and> take 2 ((example_store @
            [(''Vehicle'', VStr ''Car A'') # record_a,
             [(''Vehicle'', VInt 80), (''link'', VStr ''/wiki/V''),
              (''image'', VStr ''.../car.PNG''), (''CLASS'', VStr ''Sports ''),
              (''PRICE'', VInt 1234567), (''Braking'', VInt 33), (''Handling'', VInt 70)]])
          [3 := []])
       = example_store"
proof -
  have wf: "catalog_in example_store [(''Car A'', 0), (''Car V'', 1)]"
    by (simp add: catalog_in_def example_store_def record_a_def record_v_def keys_def)
  have run: "make_table example_store [(''Car A'', 0), (''Car V'', 1)] []
       = (example_store @
            [(''Vehicle'', VStr ''Car A'') # record_a,
             [(''Vehicle'', VInt 80), (''link'', VStr ''/wiki/V''),
              (''image'', VStr ''.../car.PNG''), (''CLASS'', VStr ''Sports ''),
              (''PRICE'', VInt 1234567), (''Braking'', VInt 33), (''Handling'', VInt 70)]],
          [2, 3])"
    by (simp add: example_store_def record_a_def record_v_def Let_def)
  have nov: "''Vehicle'' \<notin> set (keys record_a)"
    by (simp add: record_a_def keys_def)
  have frame: "take 2 ((example_store @
            [(''Vehicle'', VStr ''Car A'') # record_a,
             [(''Vehicle'', VInt 80), (''link'', VStr ''/wiki/V''),
              (''image'', VStr ''.../car.PNG''), (''CLASS'', VStr ''Sports ''),
              (''PRICE'', VInt 1234567), (''Braking'', VInt 33), (''Handling'', VInt 70)]])
          [3 := []])
       = example_store"
    using table_is_fresh_copy[OF wf run] by (simp add: example_store_def)
  show ?thesis by (intro conjI wf run nov frame)
qed

text \<open>
  Claim C9 as stated has the leading field and the order for every record. A page whose first stat is labelled
  \<^verbatim>\<open>Vehicle\<close> gives a record with a field of that name; in its flat record the
  field \<^verbatim>\<open>Vehicle\<close> is the stat and not the name of the entry, and it appears once.
\<close>

theorem vehicle_field_overwritten_counterexample:
  "scrape (\<lambda>url. page_v) [(''Car V'', ''/wiki/V'')] = ([(''Car V'', record_v)], None)
   \<and> catalog_in example_store [(''Car V'', 1)]
   \<and> make_table example_store [(''Car V'', 1)] []
       = (example_store @
            [[(''Vehicle'', VInt 80), (''link'', VStr ''/wiki/V''),
              (''image'', VStr ''.../car.PNG''), (''CLASS'', VStr ''Sports ''),
              (''PRICE'', VInt 1234567), (''Braking'', VInt 33), (''Handling'', VInt 70)]],
          [2])"
proof -
  have a: "scrape (\<lambda>url. page_v) [(''Car V'', ''/wiki/V'')] = ([(''Car V'', record_v)], None)"
    by (simp add: scrape_def LIMIT_def page_v_def record_v_def example_defs model_defs)
  have b: "catalog_in example_store [(''Car V'', 1)]"
    by (simp add: catalog_in_def example_store_def record_v_def keys_def)
  have c: "make_table example_store [(''Car V'', 1)] []
       = (example_store @
            [[(''Vehicle'', VInt 80), (''link'', VStr ''/wiki/V''),
              (''image'', VStr ''.../car.PNG''), (''CLASS'', VStr ''Sports ''),
              (''PRICE'', VInt 1234567), (''Braking'', VInt 33), (''Handling'', VInt 70)]],
          [2])"
    by (simp add: example_store_def record_v_def Let_def)
  show ?thesis by (intro conjI a b c)
qed

end
